theory Spec2Isabelle
  imports Main
begin

section \<open>Scene-graph nodes and Python errors\<close>

text \<open>
  The scene graph is a heap of Python objects. A node is referred to by its
  address: \<open>id(node)\<close>, the test \<open>a is b\<close> and the default \<open>a == b\<close> of a class
  without \<open>__eq__\<close> all compare addresses, so a reference is a natural number and
  the graph maps every reference to the attributes the traversal reads
  (\<open>transform\<close>, \<open>parents\<close>, \<open>document\<close>).
\<close>

type_synonym ref = nat

record 't node =
  transform :: 't
  parents :: "ref list"
  document :: "ref option"

type_synonym 't scenegraph = "ref \<Rightarrow> 't node"

text \<open>
  Modelled from the spec: the class of the nodes is not part of the sources.
  The spec gives \<open>parent\<close> as the single parent reference, valid only when the
  node has exactly one parent; \<open>_node_path\<close> reads it only after checking
  \<open>len(node.parents) == 1\<close>.
\<close>

definition parent :: "'t node \<Rightarrow> ref" where
  "parent nd = hd (parents nd)"

datatype error =
    RuntimeError string
  | IndexError
  | KeyError
  | ValueError
  | AssertionError
  | NameError
  | UnboundLocalError
  | TypeError

definition cycle_msg :: string where
  "cycle_msg = ''Scenegraph cycle detected; cannot push''"

definition no_path_msg :: string where
  "no_path_msg = ''Unable to find unique path''"

section \<open>SceneEvent: the traversal stacks\<close>

record scene_canvas =
  canvas_cs :: ref
  buffer_cs :: ref
  render_cs :: ref

record scene_event =
  canvas :: scene_canvas
  stack :: "ref list"
  stack_ids :: "ref set"
  viewbox_stack :: "ref list"
  doc_stack :: "ref list"

record 'm scene_mouse_event = scene_event +
  mouse_event :: 'm

text \<open>
  A method mutates the event in place and either returns or raises, so its model
  returns the outcome together with the event as the call leaves it: what was
  mutated before a \<open>raise\<close> stays mutated.
\<close>

definition SceneEvent_init :: "scene_canvas \<Rightarrow> scene_event" where
  "SceneEvent_init cv =
     \<lparr>canvas = cv, stack = [], stack_ids = {}, viewbox_stack = [], doc_stack = []\<rparr>"

definition SceneMouseEvent_init :: "'m \<Rightarrow> scene_canvas \<Rightarrow> 'm scene_mouse_event" where
  "SceneMouseEvent_init event cv =
     \<lparr>canvas = cv, stack = [], stack_ids = {}, viewbox_stack = [], doc_stack = [],
      mouse_event = event\<rparr>"

definition viewbox :: "'a scene_event_scheme \<Rightarrow> ref option" where
  "viewbox ev =
     (if length (viewbox_stack ev) > 0 then Some (last (viewbox_stack ev)) else None)"

definition path :: "'a scene_event_scheme \<Rightarrow> ref list" where
  "path ev = stack ev"

definition push_document :: "'a scene_event_scheme \<Rightarrow> ref \<Rightarrow> 'a scene_event_scheme" where
  "push_document ev doc = ev\<lparr>doc_stack := doc_stack ev @ [doc]\<rparr>"

definition pop_document ::
  "'a scene_event_scheme \<Rightarrow> (error + ref) \<times> 'a scene_event_scheme" where
  "pop_document ev =
     (case doc_stack ev of
        [] \<Rightarrow> (Inl IndexError, ev)
      | _ # _ \<Rightarrow> (Inr (last (doc_stack ev)), ev\<lparr>doc_stack := butlast (doc_stack ev)\<rparr>))"

definition push_node ::
  "'t scenegraph \<Rightarrow> 'a scene_event_scheme \<Rightarrow> ref \<Rightarrow> (error + unit) \<times> 'a scene_event_scheme" where
  "push_node g ev nd =
     (let ev1 = ev\<lparr>stack := stack ev @ [nd]\<rparr> in
      if nd \<in> stack_ids ev1 then (Inl (RuntimeError cycle_msg), ev1)
      else
        (let ev2 = ev1\<lparr>stack_ids := insert nd (stack_ids ev1)\<rparr> in
         case document (g nd) of
           None \<Rightarrow> (Inr (), ev2)
         | Some doc \<Rightarrow> (Inr (), push_document ev2 doc)))"

text \<open>
  \<open>pop_node\<close> with assertions enabled (the interpreter's default): the
  \<open>assert\<close> statement evaluates \<open>ent.document == self.pop_document()\<close>, so the
  document stack is popped before the comparison.
\<close>

definition pop_node ::
  "'t scenegraph \<Rightarrow> 'a scene_event_scheme \<Rightarrow> (error + ref) \<times> 'a scene_event_scheme" where
  "pop_node g ev =
     (case stack ev of
        [] \<Rightarrow> (Inl IndexError, ev)
      | _ # _ \<Rightarrow>
         (let ent = last (stack ev);
              ev1 = ev\<lparr>stack := butlast (stack ev)\<rparr> in
          if ent \<in> stack_ids ev1 then
            (let ev2 = ev1\<lparr>stack_ids := stack_ids ev1 - {ent}\<rparr> in
             case document (g ent) of
               None \<Rightarrow> (Inr ent, ev2)
             | Some doc \<Rightarrow>
                 (case pop_document ev2 of
                    (Inl e, ev3) \<Rightarrow> (Inl e, ev3)
                  | (Inr popped, ev3) \<Rightarrow>
                      if doc = popped then (Inr ent, ev3) else (Inl AssertionError, ev3)))
          else (Inl KeyError, ev1)))"

definition push_viewbox :: "'a scene_event_scheme \<Rightarrow> ref \<Rightarrow> 'a scene_event_scheme" where
  "push_viewbox ev vb = ev\<lparr>viewbox_stack := viewbox_stack ev @ [vb]\<rparr>"

definition pop_viewbox ::
  "'a scene_event_scheme \<Rightarrow> (error + ref) \<times> 'a scene_event_scheme" where
  "pop_viewbox ev =
     (case viewbox_stack ev of
        [] \<Rightarrow> (Inl IndexError, ev)
      | _ # _ \<Rightarrow>
         (Inr (last (viewbox_stack ev)), ev\<lparr>viewbox_stack := butlast (viewbox_stack ev)\<rparr>))"

definition document_cs :: "'a scene_event_scheme \<Rightarrow> ref" where
  "document_cs ev =
     (if length (doc_stack ev) > 0 then last (doc_stack ev) else canvas_cs (canvas ev))"

text \<open>
  \<open>SceneMouseEvent.copy\<close> builds a fresh event of the same class (empty stacks,
  empty membership set) and then assigns copies of the node stack and of the
  viewbox stack only.
\<close>

definition copy :: "'m scene_mouse_event \<Rightarrow> 'm scene_mouse_event" where
  "copy ev =
     (SceneMouseEvent_init (mouse_event ev) (canvas ev))
       \<lparr>stack := stack ev, viewbox_stack := viewbox_stack ev\<rparr>"

section \<open>Python list primitives\<close>

text \<open>
  \<open>xs[i]\<close>: a negative index counts from the end, and an index outside the list
  raises \<open>IndexError\<close>.
\<close>

definition py_getitem :: "'a list \<Rightarrow> int \<Rightarrow> error + 'a" where
  "py_getitem xs i =
     (if 0 \<le> i \<and> i < int (length xs) then Inr (xs ! nat i)
      else if i < 0 \<and> - int (length xs) \<le> i then Inr (xs ! nat (int (length xs) + i))
      else Inl IndexError)"

text \<open>\<open>xs.index(x)\<close>: the first position of \<open>x\<close>, or \<open>ValueError\<close>.\<close>

definition list_index :: "ref list \<Rightarrow> ref \<Rightarrow> error + int" where
  "list_index xs x =
     (if x \<in> set xs then Inr (int (length (takeWhile (\<lambda>y. y \<noteq> x) xs)))
      else Inl ValueError)"

section \<open>The path resolver\<close>

text \<open>
  The first loop of \<open>_node_path\<close> follows parent pointers while the node is not in
  the membership set. It either executes \<open>return path\<close> (\<open>Returned\<close>) or leaves
  the loop at a node of the membership set (\<open>On_stack\<close>). Nothing bounds the
  walk (a parent cycle away from the stack never ends), so not returning is the
  value \<open>None\<close>.
\<close>

datatype walk_result = Returned "ref list" | On_stack ref "ref list"

partial_function (option) walk_parents ::
  "'t scenegraph \<Rightarrow> ref set \<Rightarrow> ref \<Rightarrow> ref \<Rightarrow> ref list \<Rightarrow> walk_result option" where
  "walk_parents g ids end_node nd pth =
     (if nd \<notin> ids then
        (if nd = end_node \<or> length (parents (g nd)) \<noteq> 1 then Some (Returned pth)
         else walk_parents g ids end_node (parent (g nd)) (pth @ [parent (g nd)]))
      else Some (On_stack nd pth))"

declare walk_parents.simps [code]

text \<open>
  The second loop: \<open>while ind > -1 and path[-1] is not end: ind -= 1;
  path.append(self._stack[ind])\<close>. The result carries the exception, if any,
  and the path as the appends left it.
\<close>

function copy_stack :: "ref list \<Rightarrow> ref \<Rightarrow> int \<Rightarrow> ref list \<Rightarrow> error option \<times> ref list" where
  "copy_stack stk end_node ind pth =
     (if ind > -1 \<and> last pth \<noteq> end_node then
        (case py_getitem stk (ind - 1) of
           Inl e \<Rightarrow> (Some e, pth)
         | Inr x \<Rightarrow> copy_stack stk end_node (ind - 1) (pth @ [x]))
      else (None, pth))"
  by pat_completeness auto
termination
  by (relation "measure (\<lambda>(stk, end_node, ind, pth). nat (ind + 1))") auto

declare copy_stack.simps [simp del]

text \<open>
  The rest of \<open>_node_path\<close> after the first loop. The \<open>try\<close> block catches
  \<open>IndexError\<close> only; any other exception of the block leaves the method.
\<close>

definition follow_stack ::
  "'a scene_event_scheme \<Rightarrow> ref \<Rightarrow> walk_result \<Rightarrow> error + ref list" where
  "follow_stack ev end_node w =
     (case w of
        Returned pth \<Rightarrow> Inr pth
      | On_stack nd pth \<Rightarrow>
          if last pth \<noteq> end_node then
            (case list_index (stack ev) nd of
               Inl e \<Rightarrow> (if e = IndexError then Inr pth else Inl e)
             | Inr ind \<Rightarrow>
                 (case copy_stack (stack ev) end_node ind pth of
                    (None, pth') \<Rightarrow> Inr pth'
                  | (Some e, pth') \<Rightarrow> (if e = IndexError then Inr pth' else Inl e)))
          else Inr pth)"

definition node_path ::
  "'t scenegraph \<Rightarrow> 'a scene_event_scheme \<Rightarrow> ref \<Rightarrow> ref \<Rightarrow> (error + ref list) option" where
  "node_path g ev start end_node =
     (case walk_parents g (stack_ids ev) end_node start [start] of
        None \<Rightarrow> None
      | Some w \<Rightarrow> Some (follow_stack ev end_node w))"

text \<open>
  The join-point search of \<open>node_transform\<close>: \<open>for i in range(1, len(rev_path))\<close>
  runs over the indices fixed when the loop starts, while the body rebinds
  \<open>rev_path\<close> to \<open>rev_path[:i]\<close> and goes on (there is no \<open>break\<close>).
\<close>

fun join_loop :: "ref list \<Rightarrow> nat list \<Rightarrow> ref list \<Rightarrow> bool \<Rightarrow> error + (ref list \<times> bool)" where
  "join_loop fwd_path [] rev_path connected = Inr (rev_path, connected)"
| "join_loop fwd_path (i # rest) rev_path connected =
     (case py_getitem rev_path (int i) of
        Inl e \<Rightarrow> Inl e
      | Inr x \<Rightarrow>
          if x \<in> set fwd_path then join_loop fwd_path rest (take i rev_path) True
          else join_loop fwd_path rest rev_path connected)"

text \<open>
  \<open>TransformCache\<close> and the transform class are not part of the sources: the
  cache's \<open>get\<close> and the transform's \<open>inverse\<close> are parameters.
\<close>

definition chain_of ::
  "('t \<Rightarrow> 't) \<Rightarrow> 't scenegraph \<Rightarrow> ref list \<Rightarrow> ref list \<Rightarrow> 't list" where
  "chain_of inverse_of g fwd_path rev_path =
     map (\<lambda>e. transform (g e)) fwd_path @ map (\<lambda>e. inverse_of (transform (g e))) rev_path"

definition node_transform ::
  "('t list \<Rightarrow> 'r) \<Rightarrow> ('t \<Rightarrow> 't) \<Rightarrow> 't scenegraph \<Rightarrow> 'a scene_event_scheme \<Rightarrow>
     ref option \<Rightarrow> ref option \<Rightarrow> (error + 'r) option" where
  "node_transform cache_get inverse_of g ev map_to map_from =
     (let map_to = (case map_to of None \<Rightarrow> render_cs (canvas ev) | Some n \<Rightarrow> n) in
      case (case map_from of None \<Rightarrow> py_getitem (stack ev) (- 1) | Some n \<Rightarrow> Inr n) of
        Inl e \<Rightarrow> Some (Inl e)
      | Inr map_from \<Rightarrow>
         (case node_path g ev map_from map_to of
            None \<Rightarrow> None
          | Some (Inl e) \<Rightarrow> Some (Inl e)
          | Some (Inr p) \<Rightarrow>
             (let fwd_path = rev p in
              case py_getitem fwd_path 0 of
                Inl e \<Rightarrow> Some (Inl e)
              | Inr first \<Rightarrow>
                 if first = map_to then
                   Some (Inr (cache_get (chain_of inverse_of g (drop 1 fwd_path) [])))
                 else
                   (case py_getitem (stack ev) 0 of
                      Inl e \<Rightarrow> Some (Inl e)
                    | Inr root \<Rightarrow>
                       (case node_path g ev map_to root of
                          None \<Rightarrow> None
                        | Some (Inl e) \<Rightarrow> Some (Inl e)
                        | Some (Inr rev_path) \<Rightarrow>
                           (case join_loop fwd_path [1..<length rev_path] rev_path False of
                              Inl e \<Rightarrow> Some (Inl e)
                            | Inr (rev_path', connected) \<Rightarrow>
                               if \<not> connected then Some (Inl (RuntimeError no_path_msg))
                               else Some (Inr (cache_get
                                      (chain_of inverse_of g fwd_path rev_path')))))))))"

text \<open>
  \<open>visual_to_document\<close> passes \<open>map_from=node\<close>. The name \<open>node\<close> is neither a
  parameter nor a local of the property, so Python looks it up among the module's
  globals and the builtins when the property is read; \<open>free_node\<close> is what that
  lookup finds. The module binds \<open>division\<close>, \<open>Event\<close>, \<open>TransformCache\<close>,
  \<open>TransformSystem\<close> and its three classes and nothing called \<open>node\<close>, so the
  module as written runs with \<open>free_node = None\<close>. The keyword arguments are
  evaluated in order: \<open>self.document_cs\<close> first, then \<open>node\<close>.
\<close>

definition visual_to_document ::
  "('t list \<Rightarrow> 'r) \<Rightarrow> ('t \<Rightarrow> 't) \<Rightarrow> 't scenegraph \<Rightarrow> 'a scene_event_scheme \<Rightarrow>
     ref option \<Rightarrow> (error + 'r) option" where
  "visual_to_document cache_get inverse_of g ev free_node =
     (let map_to = document_cs ev in
      case free_node of
        None \<Rightarrow> Some (Inl NameError)
      | Some n \<Rightarrow> node_transform cache_get inverse_of g ev (Some map_to) (Some n))"

definition document_to_buffer ::
  "('t list \<Rightarrow> 'r) \<Rightarrow> ('t \<Rightarrow> 't) \<Rightarrow> 't scenegraph \<Rightarrow> 'a scene_event_scheme \<Rightarrow>
     (error + 'r) option" where
  "document_to_buffer cache_get inverse_of g ev =
     node_transform cache_get inverse_of g ev
       (Some (buffer_cs (canvas ev))) (Some (document_cs ev))"

definition buffer_to_render ::
  "('t list \<Rightarrow> 'r) \<Rightarrow> ('t \<Rightarrow> 't) \<Rightarrow> 't scenegraph \<Rightarrow> 'a scene_event_scheme \<Rightarrow>
     (error + 'r) option" where
  "buffer_to_render cache_get inverse_of g ev =
     node_transform cache_get inverse_of g ev
       (Some (render_cs (canvas ev))) (Some (buffer_cs (canvas ev)))"

definition get_full_transform ::
  "('t list \<Rightarrow> 'r) \<Rightarrow> 't scenegraph \<Rightarrow> 'a scene_event_scheme \<Rightarrow> 'r" where
  "get_full_transform cache_get g ev = cache_get (map (\<lambda>e. transform (g e)) (stack ev))"

section \<open>Single-parent chains and traversal stacks\<close>

text \<open>
  \<open>ascends g xs\<close>: \<open>xs\<close> lists a node and its ancestors, leaf first, and every
  node but the last has exactly one parent, the next of the list.
  \<open>traversal_of g xs\<close>: \<open>xs\<close> is a node stack as a traversal builds it, root
  first, every entry a child of the entry before it.
\<close>

fun ascends :: "'t scenegraph \<Rightarrow> ref list \<Rightarrow> bool" where
  "ascends g [] = True"
| "ascends g [x] = True"
| "ascends g (x # y # xs) = (parents (g x) = [y] \<and> ascends g (y # xs))"

fun traversal_of :: "'t scenegraph \<Rightarrow> ref list \<Rightarrow> bool" where
  "traversal_of g [] = True"
| "traversal_of g [x] = True"
| "traversal_of g (x # y # xs) = (x \<in> set (parents (g y)) \<and> traversal_of g (y # xs))"

section \<open>MeshNormalsVisual\<close>

text \<open>
  Python does not type the argument \<open>primitive\<close>, so it is a Python value: a
  string, a tuple, or any other object. The constructor only compares it with
  the strings \<open>'face'\<close> and \<open>'vertex'\<close> and formats it into a message, so an
  object that is neither a string nor a tuple is given by what its \<open>==\<close> answers
  against \<open>'face'\<close> and against \<open>'vertex'\<close> (\<open>None\<close>, a number or a list answer
  \<open>False\<close> twice; an object with its own \<open>__eq__\<close> answers what it likes).
\<close>

datatype py_value =
    Str string
  | Tuple "py_value list"
  | Object bool bool

fun py_eq :: "py_value \<Rightarrow> string \<Rightarrow> bool" where
  "py_eq (Str s) t = (s = t)"
| "py_eq (Tuple vs) t = False"
| "py_eq (Object eq_face eq_vertex) t =
     (if t = ''face'' then eq_face else if t = ''vertex'' then eq_vertex else False)"

text \<open>\<open>v in (t1, t2, ...)\<close> for a tuple of strings: equality with one of them.\<close>

primrec py_in :: "py_value \<Rightarrow> string list \<Rightarrow> bool" where
  "py_in v [] = False"
| "py_in v (t # ts) = (py_eq v t \<or> py_in v ts)"

text \<open>
  \<open>'... %s' % v\<close> with a single conversion in the format: a tuple on the right is
  the argument list itself and must hold exactly one value, or the operator raises
  \<open>TypeError\<close>; any other value is the one argument.
\<close>

fun percent_s :: "py_value \<Rightarrow> error + unit" where
  "percent_s (Tuple vs) = (if length vs = 1 then Inr () else Inl TypeError)"
| "percent_s (Str s) = Inr ()"
| "percent_s (Object eq_face eq_vertex) = Inr ()"

text \<open>
  The constructor of \<open>MeshNormalsVisual\<close> up to its first use of \<open>meshdata\<close>
  (lines 69 to 76). \<open>Raises e\<close>: it raised \<open>e\<close> and has called no method of
  \<open>meshdata\<close>. \<open>Calls m\<close>: the check has passed and the first thing done with
  \<open>meshdata\<close> is the call of \<open>m\<close>. What follows that call is array arithmetic in
  floating point and is not modelled. The message of the \<open>ValueError\<close> is built
  before the exception is, so an error of the formatting replaces it. Were
  neither comparison of lines 73 and 75 true, \<open>normals\<close> would be read unbound on
  line 77.
\<close>

datatype meshdata_call = Get_face_normals | Get_vertex_normals

datatype init_outcome = Raises error | Calls meshdata_call

definition MeshNormalsVisual_init :: "py_value \<Rightarrow> init_outcome" where
  "MeshNormalsVisual_init primitive =
     (if \<not> py_in primitive [''face'', ''vertex''] then
        (case percent_s primitive of
           Inl e \<Rightarrow> Raises e
         | Inr _ \<Rightarrow> Raises ValueError)
      else if py_eq primitive ''face'' then Calls Get_face_normals
      else if py_eq primitive ''vertex'' then Calls Get_vertex_normals
      else Raises UnboundLocalError)"

section \<open>Concrete scenes used to run the methods\<close>

definition plain_node :: "nat node" where
  "plain_node = \<lparr>transform = 0, parents = [], document = None\<rparr>"

text \<open>A chain: node 2 is the only child of node 1, node 1 of the root 0.\<close>

definition chain_scene :: "nat scenegraph" where
  "chain_scene = (\<lambda>n. if n = 2 then \<lparr>transform = 20, parents = [1], document = None\<rparr>
                        else if n = 1 then \<lparr>transform = 10, parents = [0], document = None\<rparr>
                        else if n = 0 then \<lparr>transform = 5, parents = [], document = None\<rparr>
                        else plain_node)"

text \<open>
  A cache that hands back the chain it is given, and an inverse that marks the
  transform it inverts.
\<close>

definition keep_chain :: "nat list \<Rightarrow> nat list" where
  "keep_chain ts = ts"

definition mark_inverse :: "nat \<Rightarrow> nat" where
  "mark_inverse t = t + 1000"

definition flat_scene :: "nat scenegraph" where
  "flat_scene = (\<lambda>_. plain_node)"

definition doc_scene :: "nat scenegraph" where
  "doc_scene = (\<lambda>n. if n = 3 then \<lparr>transform = 3, parents = [], document = Some 9\<rparr>
                      else plain_node)"

text \<open>A canvas whose logical-pixel frame is node 0, the root of the chain.\<close>

definition test_canvas :: scene_canvas where
  "test_canvas = \<lparr>canvas_cs = 0, buffer_cs = 101, render_cs = 102\<rparr>"

text \<open>Events built with the public methods only, from a fresh event.\<close>

definition pushed_once :: scene_event where
  "pushed_once = snd (push_node flat_scene (SceneEvent_init test_canvas) 7)"

definition root_then_child :: scene_event where
  "root_then_child =
     snd (push_node chain_scene (snd (push_node chain_scene (SceneEvent_init test_canvas) 0)) 1)"

definition child_only :: scene_event where
  "child_only = snd (push_node chain_scene (SceneEvent_init test_canvas) 1)"

definition dragged :: "string scene_mouse_event" where
  "dragged = \<lparr>canvas = test_canvas, stack = [0, 1], stack_ids = {0, 1},
              viewbox_stack = [4], doc_stack = [9], mouse_event = ''mouse_move''\<rparr>"

text \<open>
  \<open>mirrored\<close>: the membership set is exactly the set of the nodes on the stack
  and no node is on the stack twice, the state in which the stack and the set have
  the same size.
\<close>

definition mirrored :: "'a scene_event_scheme \<Rightarrow> bool" where
  "mirrored ev = (distinct (stack ev) \<and> stack_ids ev = set (stack ev))"

section \<open>Properties of the traversal stacks\<close>

lemma case_nonempty [simp]:
  "xs \<noteq> [] \<Longrightarrow> (case xs of [] \<Rightarrow> a | _ # _ \<Rightarrow> b) = b"
  by (cases xs) simp_all

lemma in_set_butlast_not_last:
  "x \<in> set xs \<Longrightarrow> x \<noteq> last xs \<Longrightarrow> x \<in> set (butlast xs)"
  by (cases xs rule: rev_cases) auto

lemma pushed_once_eq:
  "pushed_once =
     \<lparr>canvas = test_canvas, stack = [7], stack_ids = {7}, viewbox_stack = [], doc_stack = []\<rparr>"
  by (simp add: pushed_once_def push_node_def SceneEvent_init_def flat_scene_def
        plain_node_def Let_def)

lemma root_then_child_eq:
  "root_then_child =
     \<lparr>canvas = test_canvas, stack = [0, 1], stack_ids = {0, 1}, viewbox_stack = [],
      doc_stack = []\<rparr>"
  by (auto simp add: root_then_child_def push_node_def SceneEvent_init_def chain_scene_def
        plain_node_def Let_def)

lemma child_only_eq:
  "child_only =
     \<lparr>canvas = test_canvas, stack = [1], stack_ids = {1}, viewbox_stack = [], doc_stack = []\<rparr>"
  by (simp add: child_only_def push_node_def SceneEvent_init_def chain_scene_def
        plain_node_def Let_def)

subsection \<open>What the methods keep\<close>

text \<open>
  Whatever a method does, and however it ends, the membership set stays within
  the nodes on the stack. So a node that is not on the stack is never in the set.
\<close>

lemma init_ids_on_stack:
  "stack_ids (SceneEvent_init cv) \<subseteq> set (stack (SceneEvent_init cv))"
  by (simp add: SceneEvent_init_def)

lemma push_node_ids_on_stack:
  "stack_ids ev \<subseteq> set (stack ev) \<Longrightarrow>
   stack_ids (snd (push_node g ev nd)) \<subseteq> set (stack (snd (push_node g ev nd)))"
  by (auto simp add: push_node_def push_document_def Let_def split: option.splits)

lemma pop_node_stack:
  "stack ev \<noteq> [] \<Longrightarrow> stack (snd (pop_node g ev)) = butlast (stack ev)"
  by (simp add: pop_node_def pop_document_def Let_def split: option.splits list.splits)

lemma pop_node_stack_ids:
  "stack ev \<noteq> [] \<Longrightarrow>
   stack_ids (snd (pop_node g ev)) = stack_ids ev - {last (stack ev)}"
  by (simp add: pop_node_def pop_document_def Let_def split: option.splits list.splits)

lemma pop_node_empty: "stack ev = [] \<Longrightarrow> pop_node g ev = (Inl IndexError, ev)"
  by (simp add: pop_node_def)

lemma pop_node_ids_on_stack:
  assumes "stack_ids ev \<subseteq> set (stack ev)"
  shows "stack_ids (snd (pop_node g ev)) \<subseteq> set (stack (snd (pop_node g ev)))"
proof (cases "stack ev = []")
  case True
  with assms show ?thesis by (simp add: pop_node_empty)
next
  case False
  with assms show ?thesis
    by (auto simp add: pop_node_stack pop_node_stack_ids intro: in_set_butlast_not_last)
qed

text \<open>
  From a mirrored state, a push that does not raise and a pop, however it ends,
  lead to a mirrored state again, where the stack and the set have the same size;
  the viewbox methods touch neither.
\<close>

lemma mirrored_sizes: "mirrored ev \<Longrightarrow> length (stack ev) = card (stack_ids ev)"
  by (simp add: mirrored_def distinct_card)

lemma push_node_mirrored:
  "mirrored ev \<Longrightarrow> fst (push_node g ev nd) = Inr () \<Longrightarrow> mirrored (snd (push_node g ev nd))"
  by (auto simp add: mirrored_def push_node_def push_document_def Let_def
        split: option.splits if_splits)

lemma pop_node_mirrored:
  assumes "mirrored ev"
  shows "mirrored (snd (pop_node g ev))"
proof (cases "stack ev = []")
  case True
  with assms show ?thesis by (simp add: pop_node_empty)
next
  case False
  then obtain xs x where xs: "stack ev = xs @ [x]"
    by (cases "stack ev" rule: rev_cases) auto
  with assms show ?thesis
    by (auto simp add: mirrored_def pop_node_stack pop_node_stack_ids)
qed

lemma viewbox_methods_mirrored:
  "mirrored (push_viewbox ev vb) = mirrored ev"
  "mirrored (snd (pop_viewbox ev)) = mirrored ev"
  by (simp_all add: mirrored_def push_viewbox_def pop_viewbox_def split: list.splits)

subsection \<open>Pushing a node that is already on the stack\<close>

lemma push_node_cycle:
  "nd \<in> stack_ids ev \<Longrightarrow>
   push_node g ev nd = (Inl (RuntimeError cycle_msg), ev\<lparr>stack := stack ev @ [nd]\<rparr>)"
  by (simp add: push_node_def Let_def)

text \<open>
  C1. The claim: a push of a node already on the stack raises and leaves the node
  stack, the membership set and the document stack as they were. The code appends
  before it tests: after \<open>push_node(7)\<close> on a fresh event the stack is \<open>[7]\<close>,
  and a second \<open>push_node(7)\<close> raises the cycle error with the stack at
  \<open>[7, 7]\<close>; the membership set and the document stack are unchanged.
\<close>

theorem push_node_cycle_appends:
  "stack pushed_once = [7]
   \<and> push_node flat_scene pushed_once 7 =
       (Inl (RuntimeError cycle_msg),
        \<lparr>canvas = test_canvas, stack = [7, 7], stack_ids = {7}, viewbox_stack = [],
         doc_stack = []\<rparr>)"
  by (simp add: pushed_once_eq push_node_def Let_def)

text \<open>
  C4. The claim: every public operation keeps the length of the node stack equal
  to the size of the membership set, also when it raises. The event with stack
  \<open>[7]\<close> has both at 1; the push that raises the cycle error leaves the stack
  with 2 entries and the set with 1.
\<close>

theorem cycle_push_breaks_length_invariant:
  "length (stack pushed_once) = card (stack_ids pushed_once)
   \<and> fst (push_node flat_scene pushed_once 7) = Inl (RuntimeError cycle_msg)
   \<and> length (stack (snd (push_node flat_scene pushed_once 7))) = 2
   \<and> card (stack_ids (snd (push_node flat_scene pushed_once 7))) = 1"
  by (simp add: pushed_once_eq push_node_def Let_def)

subsection \<open>Push followed by pop\<close>

text \<open>
  C7. For a node whose identity is not in the membership set (the test the code
  itself applies; by the lemmas above the set stays within the nodes on the stack,
  so a node that is not on the stack passes it), \<open>push_node\<close> succeeds and the
  following \<open>pop_node\<close> returns that node and restores \<open>path()\<close>, the document
  stack (its length and its contents, with or without a document on the node) and
  in fact the whole event.
\<close>

theorem push_then_pop_restores:
  assumes "nd \<notin> stack_ids ev"
  shows "fst (push_node g ev nd) = Inr ()
       \<and> fst (pop_node g (snd (push_node g ev nd))) = Inr nd
       \<and> path (snd (pop_node g (snd (push_node g ev nd)))) = path ev
       \<and> doc_stack (snd (pop_node g (snd (push_node g ev nd)))) = doc_stack ev
       \<and> snd (pop_node g (snd (push_node g ev nd))) = ev"
proof (cases "document (g nd)")
  case None
  with assms show ?thesis
    by (simp add: push_node_def pop_node_def path_def Let_def)
next
  case (Some doc)
  with assms show ?thesis
    by (simp add: push_node_def pop_node_def pop_document_def push_document_def
          path_def Let_def)
qed

theorem push_then_pop_restores_witness:
  "(3::nat) \<notin> stack_ids (SceneEvent_init test_canvas)
   \<and> fst (push_node doc_scene (SceneEvent_init test_canvas) 3) = Inr ()
   \<and> doc_stack (snd (push_node doc_scene (SceneEvent_init test_canvas) 3)) = [9]
   \<and> pop_node doc_scene (snd (push_node doc_scene (SceneEvent_init test_canvas) 3))
       = (Inr 3, SceneEvent_init test_canvas)"
proof -
  have h: "(3::nat) \<notin> stack_ids (SceneEvent_init test_canvas)"
    by (simp add: SceneEvent_init_def)
  have d: "doc_stack (snd (push_node doc_scene (SceneEvent_init test_canvas) 3)) = [9]"
    by (simp add: push_node_def push_document_def SceneEvent_init_def doc_scene_def Let_def)
  from push_then_pop_restores [OF h, of doc_scene] h d show ?thesis
    by (simp add: prod_eq_iff)
qed

subsection \<open>Copies of a mouse event\<close>

text \<open>
  C9. The copy of a mouse event has the node stack and the viewbox stack of the
  original, an empty membership set and an empty document stack. So on the copy of
  an event with a non-empty node stack, \<open>push_node\<close> of a node of the copied
  path returns without the cycle error, and \<open>pop_node\<close> raises \<open>KeyError\<close>
  when it removes the popped node from the empty set.
\<close>

theorem copy_keeps_stacks_drops_membership:
  assumes "stack ev \<noteq> []" and "nd \<in> set (stack ev)"
  shows "stack (copy ev) = stack ev
       \<and> viewbox_stack (copy ev) = viewbox_stack ev
       \<and> stack_ids (copy ev) = {}
       \<and> doc_stack (copy ev) = []
       \<and> fst (push_node g (copy ev) nd) = Inr ()
       \<and> fst (pop_node g (copy ev)) = Inl KeyError"
proof -
  have c: "copy ev = \<lparr>canvas = canvas ev, stack = stack ev, stack_ids = {},
             viewbox_stack = viewbox_stack ev, doc_stack = [], mouse_event = mouse_event ev\<rparr>"
    by (simp add: copy_def SceneMouseEvent_init_def)
  have push: "fst (push_node g (copy ev) nd) = Inr ()"
    by (simp add: c push_node_def Let_def split: option.split)
  have pop: "fst (pop_node g (copy ev)) = Inl KeyError"
    using assms(1) by (simp add: c pop_node_def Let_def)
  from push pop show ?thesis by (simp add: c)
qed

theorem copy_keeps_stacks_drops_membership_witness:
  "stack dragged \<noteq> [] \<and> 1 \<in> set (stack dragged)
   \<and> stack (copy dragged) = [0, 1] \<and> viewbox_stack (copy dragged) = [4]
   \<and> stack_ids (copy dragged) = {} \<and> doc_stack (copy dragged) = []
   \<and> fst (push_node chain_scene (copy dragged) 1) = Inr ()
   \<and> fst (pop_node chain_scene (copy dragged)) = Inl KeyError"
proof -
  have a: "stack dragged \<noteq> []" and b: "1 \<in> set (stack dragged)"
    by (simp_all add: dragged_def)
  from copy_keeps_stacks_drops_membership [OF a b, of chain_scene] a b show ?thesis
    by (simp add: dragged_def)
qed

section \<open>Properties of the path resolver\<close>

subsection \<open>Source and target are the same node\<close>

lemma node_path_same: "node_path g ev a a = Some (Inr [a])"
  by (simp add: node_path_def walk_parents.simps follow_stack_def)

text \<open>
  C8. For every node \<open>a\<close> and every event, whether or not \<open>a\<close> is on the node
  stack or in the membership set, \<open>node_transform(a, a)\<close> returns: it hands the
  empty chain to the cache.
\<close>

theorem node_transform_same_node:
  "node_transform cache_get inverse_of g ev (Some a) (Some a) = Some (Inr (cache_get []))"
  by (simp add: node_transform_def node_path_same py_getitem_def chain_of_def)

subsection \<open>The copy of the stack onto the path\<close>

lemma first_position:
  "x \<in> set xs \<Longrightarrow>
   length (takeWhile (\<lambda>y. y \<noteq> x) xs) < length xs
   \<and> xs ! length (takeWhile (\<lambda>y. y \<noteq> x) xs) = x"
  by (induction xs) auto

lemma list_index_found:
  assumes "x \<in> set xs"
  shows "\<exists>i. list_index xs x = Inr (int i) \<and> i < length xs \<and> xs ! i = x"
  using assms first_position [of x xs] by (simp add: list_index_def)

lemma py_getitem_wraps:
  assumes "stk \<noteq> []" and "- 1 \<le> i" and "i < int (length stk)"
  shows "\<exists>x. py_getitem stk i = Inr x"
  using assms by (cases stk) (auto simp add: py_getitem_def Let_def)

text \<open>
  C3. The claim: once the walk has found its node on the stack, \<open>_node_path\<close>
  copies the entries below it and never one that lies above the found position.
  With the stack \<open>[0, 1]\<close> (root 0, then its child 1), \<open>_node_path(0, 5)\<close>
  finds node 0 at position 0; the loop decrements the index to \<open>-1\<close> and
  \<open>self._stack[-1]\<close> is the top of the stack, so node 1, which lies above
  position 0, is appended.
\<close>

theorem node_path_wraps_to_stack_top:
  "stack root_then_child = [0, 1]
   \<and> list_index (stack root_then_child) 0 = Inr 0
   \<and> node_path chain_scene root_then_child 0 5 = Some (Inr [0, 1])"
  by (simp add: root_then_child_eq node_path_def follow_stack_def walk_parents.simps
        list_index_def copy_stack.simps py_getitem_def)

text \<open>
  The other half of that claim is the node that is in the membership set and not on
  the stack: there \<open>index\<close> raises \<open>ValueError\<close>, which \<open>except IndexError\<close>
  does not catch.
\<close>

lemma node_path_value_error:
  "nd \<in> stack_ids ev \<Longrightarrow> nd \<notin> set (stack ev) \<Longrightarrow> nd \<noteq> end_node \<Longrightarrow>
   node_path g ev nd end_node = Some (Inl ValueError)"
  by (simp add: node_path_def walk_parents.simps follow_stack_def list_index_def)

text \<open>
  The methods never produce such a state: they keep the membership set within the
  stack, and then \<open>_node_path\<close> raises nothing. On a non-empty stack the copy
  loop never leaves the list (the index \<open>-1\<close> wraps), so the
  \<open>except IndexError\<close> clause is never entered.
\<close>

lemma copy_stack_no_error:
  "stk \<noteq> [] \<Longrightarrow> ind < int (length stk) \<Longrightarrow> fst (copy_stack stk e ind pth) = None"
proof (induction stk e ind pth rule: copy_stack.induct)
  case (1 stk end_node ind pth)
  show ?case
  proof (cases "ind > -1 \<and> last pth \<noteq> end_node")
    case True
    with "1.prems" obtain x where x: "py_getitem stk (ind - 1) = Inr x"
      using py_getitem_wraps [of stk "ind - 1"] by auto
    from True x "1.prems" have "fst (copy_stack stk end_node (ind - 1) (pth @ [x])) = None"
      by (intro "1.IH") auto
    with True x show ?thesis
      by (subst copy_stack.simps) simp
  next
    case False
    then show ?thesis by (subst copy_stack.simps) auto
  qed
qed

lemma walk_result_in_ids:
  "walk_parents g ids e nd pth = Some w \<Longrightarrow>
   (case w of Returned p \<Rightarrow> True | On_stack n p \<Rightarrow> n \<in> ids)"
proof (induction rule: walk_parents.raw_induct [rotated 1, consumes 1])
  case (1 walk g ids e nd pth w)
  then show ?case by (auto split: if_splits)
qed

lemma walk_on_stack_in_ids:
  "walk_parents g ids e nd pth = Some (On_stack n p) \<Longrightarrow> n \<in> ids"
  using walk_result_in_ids [of g ids e nd pth "On_stack n p"] by simp

lemma node_path_never_raises:
  assumes "stack_ids ev \<subseteq> set (stack ev)"
  shows "node_path g ev start end_node \<noteq> Some (Inl err)"
proof
  assume a: "node_path g ev start end_node = Some (Inl err)"
  then obtain w where w: "walk_parents g (stack_ids ev) end_node start [start] = Some w"
      and f: "follow_stack ev end_node w = Inl err"
    by (auto simp add: node_path_def split: option.splits)
  show False
  proof (cases w)
    case (Returned pth)
    with f show ?thesis by (simp add: follow_stack_def)
  next
    case (On_stack n pth)
    with w have "n \<in> stack_ids ev" by (simp add: walk_on_stack_in_ids)
    with assms have n: "n \<in> set (stack ev)" by auto
    then obtain i where i: "list_index (stack ev) n = Inr (int i)" "i < length (stack ev)"
      using list_index_found by blast
    from n i(2) have "fst (copy_stack (stack ev) end_node (int i) pth) = None"
      by (intro copy_stack_no_error) auto
    with f On_stack i(1) show ?thesis
      by (auto simp add: follow_stack_def split: if_splits prod.splits option.splits)
  qed
qed

subsection \<open>The join-point search\<close>

text \<open>
  C2. The claim: the search truncates \<open>rev_path\<close> at the first index whose node
  is on \<open>fwd_path\<close>, and nothing but the "unable to find unique path" error leaves
  it. With the stack \<open>[0, 1]\<close>, mapping from the current node 1 to its child 2:
  \<open>fwd_path\<close> is \<open>[1, 0, 1]\<close>, \<open>rev_path\<close> is \<open>[2, 1, 0]\<close>, the first common
  node is at index 1, \<open>rev_path\<close> becomes \<open>[2]\<close>, the loop goes on to index 2 and
  \<open>rev_path[2]\<close> raises \<open>IndexError\<close>.
\<close>

theorem join_search_index_error:
  "stack root_then_child = [0, 1]
   \<and> node_path chain_scene root_then_child 1 2 = Some (Inr [1, 0, 1])
   \<and> node_path chain_scene root_then_child 2 0 = Some (Inr [2, 1, 0])
   \<and> join_loop [1, 0, 1] [1..<3] [2, 1, 0] False = Inl IndexError
   \<and> node_transform keep_chain mark_inverse chain_scene root_then_child (Some 2) None
       = Some (Inl IndexError)"
  by (simp add: root_then_child_eq node_transform_def node_path_def follow_stack_def
        walk_parents.simps list_index_def copy_stack.simps py_getitem_def chain_scene_def
        plain_node_def parent_def upt_rec)

subsection \<open>The property \<open>visual_to_document\<close>\<close>

text \<open>
  C6. The claim: reading \<open>visual_to_document\<close> returns the transform from the
  current node to the document frame and does not raise when the stack is not
  empty and a path exists. With the stack \<open>[0, 1]\<close> and no document pushed, the
  document frame is the canvas frame, node 0, and the resolver called with that
  target and the current node returns the chain of node 1; but the property, read
  in the module as written (no global \<open>node\<close>), raises \<open>NameError\<close>.
\<close>

theorem visual_to_document_name_error:
  "stack root_then_child = [0, 1]
   \<and> document_cs root_then_child = 0
   \<and> node_transform keep_chain mark_inverse chain_scene root_then_child
        (Some (document_cs root_then_child)) None = Some (Inr [10])
   \<and> visual_to_document keep_chain mark_inverse chain_scene root_then_child None
       = Some (Inl NameError)"
  by (simp add: root_then_child_eq visual_to_document_def document_cs_def test_canvas_def
        node_transform_def node_path_def follow_stack_def walk_parents.simps list_index_def
        copy_stack.simps py_getitem_def chain_scene_def chain_of_def keep_chain_def)

lemma visual_to_document_always_name_error:
  "visual_to_document cache_get inverse_of g ev None = Some (Inl NameError)"
  by (simp add: visual_to_document_def)

subsection \<open>Single-parent chains\<close>

lemma traversal_of_nth:
  "traversal_of g stk \<Longrightarrow> Suc i < length stk \<Longrightarrow> stk ! i \<in> set (parents (g (stk ! Suc i)))"
proof (induction g stk arbitrary: i rule: traversal_of.induct)
  case (3 g x y xs)
  then show ?case by (cases i) simp_all
qed simp_all

lemma ascends_has_parent:
  "ascends g (cs @ [r]) \<Longrightarrow> x \<in> set cs \<Longrightarrow> parents (g x) \<noteq> []"
proof (induction cs)
  case Nil
  then show ?case by simp
next
  case (Cons c cs)
  then show ?case by (cases cs) auto
qed

text \<open>
  On a traversal stack that starts at a parentless node, the copy loop started at
  a node of a single-parent chain appends the rest of the chain and stops at its
  end.
\<close>

lemma copy_stack_chain:
  assumes "ascends g (x # xs)" and "last (x # xs) = r" and "r \<notin> set (butlast (x # xs))"
    and "traversal_of g stk" and "parents (g (stk ! 0)) = []"
    and "i < length stk" and "stk ! i = x" and "last pth = x"
  shows "copy_stack stk r (int i) pth = (None, pth @ xs)"
  using assms
proof (induction xs arbitrary: x i pth)
  case Nil
  then show ?case by (simp add: copy_stack.simps)
next
  case (Cons y ys)
  from Cons.prems(1) have px: "parents (g x) = [y]" by simp
  from Cons.prems(3) have xr: "x \<noteq> r" by simp
  have "i \<noteq> 0"
  proof
    assume "i = 0"
    with Cons.prems(5,7) px show False by simp
  qed
  then obtain j where i: "i = Suc j" by (cases i) auto
  with Cons.prems(4,6) have "stk ! j \<in> set (parents (g (stk ! Suc j)))"
    by (simp add: traversal_of_nth)
  with i Cons.prems(7) px have sj: "stk ! j = y" by simp
  from i Cons.prems(6) have get: "py_getitem stk (int i - 1) = Inr y"
    by (simp add: py_getitem_def sj)
  have step: "copy_stack stk r (int i) pth = copy_stack stk r (int i - 1) (pth @ [y])"
    using xr Cons.prems(8) get by (subst copy_stack.simps) simp
  have "copy_stack stk r (int j) (pth @ [y]) = (None, (pth @ [y]) @ ys)"
  proof (rule Cons.IH)
    show "ascends g (y # ys)" using Cons.prems(1) by simp
    show "last (y # ys) = r" using Cons.prems(2) by simp
    show "r \<notin> set (butlast (y # ys))" using Cons.prems(3) by simp
    show "traversal_of g stk" by (rule Cons.prems(4))
    show "parents (g (stk ! 0)) = []" by (rule Cons.prems(5))
    show "j < length stk" using i Cons.prems(6) by simp
    show "stk ! j = y" by (rule sj)
    show "last (pth @ [y]) = y" by simp
  qed
  with step i show ?case by simp
qed

lemma walk_follow_chain:
  assumes "ascends g (x # xs)" and "last (x # xs) = r" and "r \<notin> set (butlast (x # xs))"
    and "traversal_of g (stack ev)"
    and "stack ev = [] \<or> parents (g (hd (stack ev))) = []"
    and "stack_ids ev \<subseteq> set (stack ev)" and "last pth = x"
  shows "\<exists>w. walk_parents g (stack_ids ev) r x pth = Some w
             \<and> follow_stack ev r w = Inr (pth @ xs)"
  using assms
proof (induction xs arbitrary: x pth)
  case Nil
  then show ?case
    by (subst walk_parents.simps) (simp add: follow_stack_def)
next
  case (Cons y ys)
  from Cons.prems(1) have px: "parents (g x) = [y]" by simp
  from Cons.prems(3) have xr: "x \<noteq> r" by simp
  show ?case
  proof (cases "x \<in> stack_ids ev")
    case True
    with Cons.prems(6) have "x \<in> set (stack ev)" by auto
    then obtain i where i: "list_index (stack ev) x = Inr (int i)" "i < length (stack ev)"
        "stack ev ! i = x"
      using list_index_found by blast
    from i(2) Cons.prems(5) have root: "parents (g (stack ev ! 0)) = []"
      by (cases "stack ev") auto
    have "copy_stack (stack ev) r (int i) pth = (None, pth @ y # ys)"
      using Cons.prems(1,2,3,4) root i(2,3) Cons.prems(7) by (rule copy_stack_chain)
    with True xr i(1) Cons.prems(7) show ?thesis
      by (subst walk_parents.simps) (simp add: follow_stack_def)
  next
    case False
    have "\<exists>w. walk_parents g (stack_ids ev) r y (pth @ [y]) = Some w
             \<and> follow_stack ev r w = Inr ((pth @ [y]) @ ys)"
    proof (rule Cons.IH)
      show "ascends g (y # ys)" using Cons.prems(1) by simp
      show "last (y # ys) = r" using Cons.prems(2) by simp
      show "r \<notin> set (butlast (y # ys))" using Cons.prems(3) by simp
      show "traversal_of g (stack ev)" by (rule Cons.prems(4))
      show "stack ev = [] \<or> parents (g (hd (stack ev))) = []" by (rule Cons.prems(5))
      show "stack_ids ev \<subseteq> set (stack ev)" by (rule Cons.prems(6))
      show "last (pth @ [y]) = y" by simp
    qed
    with False xr px show ?thesis
      by (subst walk_parents.simps) (simp add: parent_def)
  qed
qed

lemma node_path_chain:
  assumes "ascends g (x # xs)" and "last (x # xs) = r" and "r \<notin> set (butlast (x # xs))"
    and "traversal_of g (stack ev)"
    and "stack ev = [] \<or> parents (g (hd (stack ev))) = []"
    and "stack_ids ev \<subseteq> set (stack ev)"
  shows "node_path g ev x r = Some (Inr (x # xs))"
proof -
  have "last [x] = x" by simp
  with assms obtain w where "walk_parents g (stack_ids ev) r x [x] = Some w"
      and "follow_stack ev r w = Inr ([x] @ xs)"
    using walk_follow_chain [of g x xs r ev "[x]"] by blast
  then show ?thesis by (simp add: node_path_def)
qed

text \<open>
  C5, as the code has it. Let \<open>cs @ [r]\<close> be a node \<open>n\<close> (the head of the list)
  followed by its ancestors up to a parentless root \<open>r\<close>, every node before
  \<open>r\<close> with exactly one parent. Let the node stack be one that a traversal from
  the root builds, root first: empty, or starting at a parentless node, each entry
  a child of the one before it, with the membership set within the stack. Then
  \<open>node_transform(n, r)\<close> returns, and what it hands to the cache is the forward
  transforms of the nodes below \<open>r\<close>, the one next to the root first and
  \<open>n\<close>'s own last, with no inverse among them. The transform of \<open>r\<close> itself,
  which maps out of the root's frame, is not in the chain; for \<open>n = r\<close> the chain
  is empty.
\<close>

theorem single_parent_chain_transform:
  assumes chain: "ascends g (cs @ [r])"
    and root: "parents (g r) = []"
    and trav: "traversal_of g (stack ev)"
    and start: "stack ev = [] \<or> parents (g (hd (stack ev))) = []"
    and ids: "stack_ids ev \<subseteq> set (stack ev)"
  shows "node_transform cache_get inverse_of g ev (Some r) (Some (hd (cs @ [r])))
           = Some (Inr (cache_get (map (\<lambda>e. transform (g e)) (rev cs))))"
proof -
  obtain x xs where split: "cs @ [r] = x # xs" by (cases "cs @ [r]") auto
  from chain root have notin: "r \<notin> set cs"
    using ascends_has_parent by blast
  have np: "node_path g ev x r = Some (Inr (x # xs))"
  proof (rule node_path_chain)
    show "ascends g (x # xs)" using chain split by simp
    show "last (x # xs) = r" using split by (metis last_snoc)
    show "r \<notin> set (butlast (x # xs))" using notin split by (metis butlast_snoc)
  qed (rule trav start ids)+
  have "rev (x # xs) = rev (cs @ [r])" using split by simp
  then have r1: "rev (x # xs) = r # rev cs" by simp
  show ?thesis
    using split np r1 by (simp add: node_transform_def py_getitem_def chain_of_def)
qed

theorem single_parent_chain_transform_witness:
  "ascends chain_scene ([2, 1] @ [0])
   \<and> parents (chain_scene 0) = []
   \<and> traversal_of chain_scene (stack root_then_child)
   \<and> (stack root_then_child = [] \<or> parents (chain_scene (hd (stack root_then_child))) = [])
   \<and> stack_ids root_then_child \<subseteq> set (stack root_then_child)
   \<and> node_transform keep_chain mark_inverse chain_scene root_then_child (Some 0) (Some 2)
       = Some (Inr [10, 20])"
proof -
  have a: "ascends chain_scene ([2, 1] @ [0])"
    and b: "parents (chain_scene 0) = []"
    by (simp_all add: chain_scene_def)
  have c: "traversal_of chain_scene (stack root_then_child)"
    and d: "stack root_then_child = [] \<or> parents (chain_scene (hd (stack root_then_child))) = []"
    and e: "stack_ids root_then_child \<subseteq> set (stack root_then_child)"
    by (simp_all add: root_then_child_eq chain_scene_def)
  from single_parent_chain_transform [OF a b c d e, of keep_chain mark_inverse] a b c d e
  show ?thesis by (simp add: chain_scene_def keep_chain_def)
qed

text \<open>
  C5, as the claim states it, puts the transform of every ancestor up to the root
  into the chain, and the node's own. On the stack \<open>[0, 1]\<close>, root first, node 1
  has the single parent 0, the parentless root, whose transform is 5:
  \<open>node_transform(1, 0)\<close> hands \<open>[10]\<close> to the cache, node 1's own transform
  alone, not \<open>[5, 10]\<close>; and \<open>node_transform(0, 0)\<close> hands it the empty chain,
  not \<open>[5]\<close>. The chain maps into the frame of the target, so the target itself is
  dropped from the path (\<open>fwd_path = fwd_path[1:]\<close>).
\<close>

theorem root_transform_not_in_chain:
  "ascends chain_scene ([1] @ [0])
   \<and> parents (chain_scene 0) = []
   \<and> stack root_then_child = [0, 1]
   \<and> map (\<lambda>e. transform (chain_scene e)) [0, 1] = [5, 10]
   \<and> node_transform keep_chain mark_inverse chain_scene root_then_child (Some 0) (Some 1)
       = Some (Inr [10])
   \<and> node_transform keep_chain mark_inverse chain_scene root_then_child (Some 0) (Some 1)
       \<noteq> Some (Inr (keep_chain (map (\<lambda>e. transform (chain_scene e)) [0, 1])))
   \<and> node_transform keep_chain mark_inverse chain_scene root_then_child (Some 0) (Some 0)
       = Some (Inr [])
   \<and> node_transform keep_chain mark_inverse chain_scene root_then_child (Some 0) (Some 0)
       \<noteq> Some (Inr (keep_chain (map (\<lambda>e. transform (chain_scene e)) [0])))"
  by (simp add: root_then_child_eq node_transform_def node_path_def follow_stack_def
        walk_parents.simps list_index_def copy_stack.simps py_getitem_def chain_scene_def
        chain_of_def keep_chain_def)

text \<open>
  The conditions on the stack are not idle. A stack that does not start at the
  root is not one a traversal from the root builds; on the stack \<open>[1]\<close> the walk
  stops at node 1 because it is on the stack, the stack does not lead to the root,
  and the same query raises the "unable to find unique path" error.
\<close>

lemma stack_not_from_root_no_path:
  "ascends chain_scene ([1] @ [0])
   \<and> parents (chain_scene 0) = []
   \<and> stack child_only = [1]
   \<and> node_transform keep_chain mark_inverse chain_scene child_only (Some 0) (Some 1)
       = Some (Inl (RuntimeError no_path_msg))"
  by (simp add: child_only_eq node_transform_def node_path_def follow_stack_def
        walk_parents.simps list_index_def copy_stack.simps py_getitem_def chain_scene_def
        parent_def)

section \<open>Properties of MeshNormalsVisual\<close>

lemma py_in_face_vertex:
  "py_in v [''face'', ''vertex''] = (py_eq v ''face'' \<or> py_eq v ''vertex'')"
  by simp




text \<open>
  For strings the claim holds as it is written, and the two accepted strings do
  reach the mesh data.
\<close>

lemma mesh_normals_rejects_string:
  "s \<noteq> ''face'' \<Longrightarrow> s \<noteq> ''vertex'' \<Longrightarrow> MeshNormalsVisual_init (Str s) = Raises ValueError"
  by (simp add: MeshNormalsVisual_init_def)

lemma mesh_normals_accepts:
  "MeshNormalsVisual_init (Str ''face'') = Calls Get_face_normals"
  "MeshNormalsVisual_init (Str ''vertex'') = Calls Get_vertex_normals"
  by (simp_all add: MeshNormalsVisual_init_def)

end
